theory Spec2Isabelle
  imports Complex_Main "HOL-Library.Sublist"
begin

section \<open>Strings and the string built-ins the script calls\<close>

text \<open>
  A JavaScript string is a sequence of code units. The model uses \<^typ>\<open>string\<close>, whose
  characters have eight bits, and reads a character as the code unit with the same
  number (U+0000 to U+00FF). The built-ins \<open>trim\<close>, \<open>split\<close>, \<open>toLowerCase\<close> and
  \<open>includes\<close> are written out for that range as ECMAScript defines them.
\<close>

text \<open>
  White space and line terminators of ECMAScript below U+0100: TAB, LF, VT, FF, CR,
  SP and NBSP.
\<close>

definition isWhiteSpace :: "char \<Rightarrow> bool" where
  "isWhiteSpace c = (of_char c \<in> {9, 10, 11, 12, 13, 32, 160 :: nat})"

text \<open>\<open>String.prototype.trim\<close>: white space is removed from both ends.\<close>

definition trim :: "string \<Rightarrow> string" where
  "trim s = rev (dropWhile isWhiteSpace (rev (dropWhile isWhiteSpace s)))"

text \<open>
  \<open>toLowerCase\<close> on one code unit: A to Z and the capital letters U+00C0 to U+00DE
  (without the multiplication sign U+00D7) move up by 32; bit 5 is clear in both
  ranges, so adding 32 is setting that bit.
\<close>

definition toLowerCase_char :: "char \<Rightarrow> char" where
  "toLowerCase_char c =
     (let n = of_char c :: nat in
      if (65 \<le> n \<and> n \<le> 90) \<or> (192 \<le> n \<and> n \<le> 222 \<and> n \<noteq> 215)
      then (case c of Char b0 b1 b2 b3 b4 b5 b6 b7 \<Rightarrow> Char b0 b1 b2 b3 b4 True b6 b7)
      else c)"

definition toLowerCase :: "string \<Rightarrow> string" where
  "toLowerCase s = map toLowerCase_char s"

text \<open>
  \<open>s.split(sep)\<close> for a separator of one code unit. The result is never empty:
  the empty string splits into one empty field.
\<close>

fun js_split :: "char \<Rightarrow> string \<Rightarrow> string list" where
  "js_split sep [] = [[]]"
| "js_split sep (c # cs) =
     (if c = sep then [] # js_split sep cs
      else (case js_split sep cs of
              [] \<Rightarrow> [[c]]
            | w # ws \<Rightarrow> (c # w) # ws))"

text \<open>\<open>s.includes(t)\<close>: does \<open>t\<close> occur in \<open>s\<close> at some position?\<close>

fun startsWith :: "string \<Rightarrow> string \<Rightarrow> bool" where
  "startsWith s [] = True"
| "startsWith [] (t # ts) = False"
| "startsWith (c # cs) (t # ts) = (c = t \<and> startsWith cs ts)"

fun js_includes :: "string \<Rightarrow> string \<Rightarrow> bool" where
  "js_includes [] t = (t = [])"
| "js_includes (c # cs) t = (startsWith (c # cs) t \<or> js_includes cs t)"


section \<open>Rows\<close>

text \<open>
  A row is the object \<open>parseCSV\<close> builds: column name to cell, a cell being a string
  or \<open>null\<close> (\<open>None\<close>). A row is kept as the list of its own properties in the order
  in which \<open>Object.keys\<close> and \<open>Object.values\<close> enumerate them: first the keys that
  are array indices, by ascending number, then the other keys in the order of their
  creation.
\<close>

type_synonym cell = "string option"
type_synonym row = "(string \<times> cell) list"

text \<open>
  An array index is the decimal numeral, without sign, space or leading zero, of a
  number below \<open>2^32 - 1\<close>.
\<close>

definition is_digit :: "char \<Rightarrow> bool" where
  "is_digit c = (48 \<le> (of_char c :: int) \<and> (of_char c :: int) \<le> 57)"

definition decimal_value :: "string \<Rightarrow> int" where
  "decimal_value k = foldl (\<lambda>n c. 10 * n + (of_char c - 48)) 0 k"

definition is_array_index :: "string \<Rightarrow> bool" where
  "is_array_index k =
     (k \<noteq> [] \<and> list_all is_digit k \<and> (length k = 1 \<or> hd k \<noteq> CHR ''0'')
      \<and> decimal_value k < 2 ^ 32 - 1)"

text \<open>
  Writing an own property: a property that exists keeps its place and takes the new
  cell; a new array index goes before the first key that is no smaller array index; any
  other new key goes to the end.
\<close>

fun overwrite :: "string \<Rightarrow> cell \<Rightarrow> row \<Rightarrow> row" where
  "overwrite k v [] = []"
| "overwrite k v ((k', v') # r) =
     (if k' = k then (k', v) # r else (k', v') # overwrite k v r)"

fun insert_index :: "string \<Rightarrow> cell \<Rightarrow> row \<Rightarrow> row" where
  "insert_index k v [] = [(k, v)]"
| "insert_index k v ((k', v') # r) =
     (if is_array_index k' \<and> decimal_value k' < decimal_value k
      then (k', v') # insert_index k v r
      else (k, v) # (k', v') # r)"

definition define_own :: "string \<Rightarrow> cell \<Rightarrow> row \<Rightarrow> row" where
  "define_own k v r =
     (if k \<in> set (map fst r) then overwrite k v r
      else if is_array_index k then insert_index k v r
      else r @ [(k, v)])"

text \<open>
  An object under construction: its own properties, and whether its prototype is still
  \<open>Object.prototype\<close>, as it is for \<open>{}\<close>. The assignment \<open>row[k] = v\<close> writes an own
  property, except for the key \<open>__proto__\<close> while the prototype is \<open>Object.prototype\<close>:
  that key is an accessor inherited from there, and the assignment runs its setter, which
  sets the prototype to \<open>null\<close> when \<open>v\<close> is \<open>null\<close> and does nothing when \<open>v\<close> is a
  string. No own property is written in either case. Every other name that
  \<open>Object.prototype\<close> defines is a writable data property, which an assignment shadows
  with an own property.
\<close>

record js_object =
  proto_intact :: bool
  own_props :: row

definition set_prop :: "string \<Rightarrow> cell \<Rightarrow> js_object \<Rightarrow> js_object" where
  "set_prop k v ob =
     (if k = ''__proto__'' \<and> proto_intact ob then
        (case v of None \<Rightarrow> ob\<lparr>proto_intact := False\<rparr> | Some s \<Rightarrow> ob)
      else ob\<lparr>own_props := define_own k v (own_props ob)\<rparr>)"

definition Object_values :: "row \<Rightarrow> cell list" where
  "Object_values r = map snd r"


datatype js_error = TypeError | NetworkError


section \<open>parseCSV\<close>

text \<open>
  The loop \<open>headers.forEach((header, index) => ...)\<close> on the object \<open>row\<close>. Reading
  \<open>values[index]\<close> past the end gives \<open>undefined\<close>, whose \<open>.trim()\<close> throws.
\<close>

fun forEach_loop :: "string list \<Rightarrow> nat \<Rightarrow> string list \<Rightarrow> js_object \<Rightarrow> js_error + js_object" where
  "forEach_loop [] index values row = Inr row"
| "forEach_loop (header # rest) index values row =
     (if index < length values then
        (let value = trim (values ! index) in
         forEach_loop rest (Suc index) values
           (set_prop header (if value = [] \<or> value = ''null'' then None else Some value) row))
      else Inl TypeError)"

text \<open>
  The loop run on a plain object that holds the given own properties (none, for
  \<open>const row = {}\<close>); the result is the row as it is pushed, its own properties.
\<close>

definition forEach_header :: "string list \<Rightarrow> nat \<Rightarrow> string list \<Rightarrow> row \<Rightarrow> js_error + row" where
  "forEach_header headers index values row =
     (case forEach_loop headers index values \<lparr>proto_intact = True, own_props = row\<rparr> of
        Inl e \<Rightarrow> Inl e
      | Inr ob \<Rightarrow> Inr (own_props ob))"

text \<open>The loop \<open>for (let i = 1; i < lines.length; i++)\<close>, with \<open>data\<close> as accumulator.\<close>

function parse_lines :: "string list \<Rightarrow> string list \<Rightarrow> nat \<Rightarrow> row list \<Rightarrow> js_error + row list" where
  "parse_lines lines headers i data =
     (if i < length lines then
        (let values = js_split CHR '','' (lines ! i) in
         if length values = length headers then
           (case forEach_header headers 0 values [] of
              Inl e \<Rightarrow> Inl e
            | Inr row \<Rightarrow> parse_lines lines headers (Suc i) (data @ [row]))
         else parse_lines lines headers (Suc i) data)
      else Inr data)"
  by pat_completeness auto
termination
  by (relation "measure (\<lambda>(lines, headers, i, data). length lines - i)") auto

declare parse_lines.simps [simp del]

definition parseCSV :: "string \<Rightarrow> js_error + row list" where
  "parseCSV text =
     (let lines = js_split CHR ''\<newline>'' (trim text) in
      if length lines = 0 then Inr []
      else
        (let headers = map (\<lambda>h. toLowerCase (trim h)) (js_split CHR '','' (lines ! 0)) in
         parse_lines lines headers 1 []))"


section \<open>calculateStats\<close>

text \<open>
  JavaScript numbers are modelled as exact numbers: counts as integers, percentages as
  reals. The counts are array lengths and cell counts, far below the range where
  doubles stop being exact on integers. A quotient and its product with 100 are doubles
  in the script and exact reals here. For the counts an array can have, the two differ
  by far less than the distance of the exact percentage from the nearest midpoint
  between two tenths, unless the percentage is such a midpoint; so \<open>toFixed(1)\<close> gives
  the same tenth in the script and in the model, except at a midpoint, where the double
  may lie below it and the script then returns the lower tenth (23 of 80 rows: 28.7 in
  the script, 28.8 here). What is stated about a percentage in C7 and C8 holds for
  either tenth.
\<close>

text \<open>
  The number that \<open>x.toFixed(1)\<close> denotes: \<open>n / 10\<close> for the integer \<open>n\<close> with
  \<open>n / 10\<close> nearest to \<open>x\<close>, the larger \<open>n\<close> at a tie, the sign of a negative
  \<open>x\<close> taken off first. A percentage is kept as that decimal number; \<open>parseFloat\<close>
  reads the string back as the double nearest to it.
\<close>

definition toFixed1 :: "real \<Rightarrow> real" where
  "toFixed1 x =
     (if x < 0 then - (of_int \<lfloor>(- x) * 10 + 1 / 2\<rfloor> / 10)
      else of_int \<lfloor>x * 10 + 1 / 2\<rfloor> / 10)"

record counters =
  rawMissing :: int
  rawNulls :: int
  totalFields :: int
  validFields :: int

text \<open>
  The inner loop \<open>Object.values(row).forEach(value => ...)\<close>; \<open>hasNull\<close> is the flag
  of the enclosing row.
\<close>

fun forEach_value :: "cell list \<Rightarrow> counters \<times> bool \<Rightarrow> counters \<times> bool" where
  "forEach_value [] st = st"
| "forEach_value (value # rest) (c, hasNull) =
     (let c1 = c\<lparr>totalFields := totalFields c + 1\<rparr> in
      if value = None \<or> value = Some [] then
        (let c2 = c1\<lparr>rawNulls := rawNulls c1 + 1\<rparr> in
         if \<not> hasNull then forEach_value rest (c2\<lparr>rawMissing := rawMissing c2 + 1\<rparr>, True)
         else forEach_value rest (c2, hasNull))
      else forEach_value rest (c1\<lparr>validFields := validFields c1 + 1\<rparr>, hasNull))"

text \<open>The outer loop \<open>raw.forEach(row => ...)\<close>.\<close>

fun forEach_row :: "row list \<Rightarrow> counters \<Rightarrow> counters" where
  "forEach_row [] c = c"
| "forEach_row (row # rest) c =
     forEach_row rest (fst (forEach_value (Object_values row) (c, False)))"

record side_stats =
  total :: int
  missing :: int
  nulls :: int
  completeness :: real
  validity :: real
  consistency :: real

record data_stats =
  raw :: side_stats
  cleaned :: side_stats
  quality :: real
  removed :: int

text \<open>
  \<open>quality\<close> is returned as the string \<open>toFixed\<close> built (the number \<open>0\<close> for an
  empty raw sequence); the model keeps the number that string denotes.
\<close>

definition calculateStats :: "row list \<Rightarrow> row list \<Rightarrow> data_stats" where
  "calculateStats rawRows cleanedRows =
     (let rawTotal = int (length rawRows);
          cleanedTotal = int (length cleanedRows);
          c = forEach_row rawRows
                \<lparr>rawMissing = 0, rawNulls = 0, totalFields = 0, validFields = 0\<rparr>;
          qualityV = (if rawTotal > 0
                      then toFixed1 ((of_int cleanedTotal / of_int rawTotal) * 100) else 0);
          completenessV = (if totalFields c > 0
                      then toFixed1 ((of_int (validFields c) / of_int (totalFields c)) * 100) else 0);
          validityV = (if rawTotal > 0
                      then toFixed1 ((of_int (rawTotal - rawMissing c) / of_int rawTotal) * 100) else 0);
          consistencyV = (if rawTotal > 0
                      then toFixed1 ((of_int (rawTotal - (rawTotal - cleanedTotal)) / of_int rawTotal) * 100)
                      else 0)
      in \<lparr>raw = \<lparr>total = rawTotal, missing = rawMissing c, nulls = rawNulls c,
                  completeness = completenessV, validity = validityV,
                  consistency = consistencyV\<rparr>,
          cleaned = \<lparr>total = cleanedTotal, missing = 0, nulls = 0,
                      completeness = 100, validity = 100, consistency = 100\<rparr>,
          quality = qualityV,
          removed = rawTotal - cleanedTotal\<rparr>)"


section \<open>Application state\<close>

datatype view = Raw | Cleaned

record view_state =
  currentPage :: int
  itemsPerPage :: int
  filteredData :: "row list"

text \<open>
  The module's globals. \<open>paginationState[type]\<close> is the function application
  \<open>paginationState s type\<close>. \<open>dataStats\<close> is \<open>None\<close> for the placeholder literal the
  script starts with (zero totals, no percentages), and \<open>Some\<close> of what
  \<open>calculateStats\<close> returned afterwards.
\<close>

record app_state =
  currentDataset :: string
  rawData :: "row list"
  cleanedData :: "row list"
  dataStats :: "data_stats option"
  paginationState :: "view \<Rightarrow> view_state"

definition initial_state :: app_state where
  "initial_state =
     \<lparr>currentDataset = ''field'', rawData = [], cleanedData = [], dataStats = None,
      paginationState = (\<lambda>type. \<lparr>currentPage = 1, itemsPerPage = 50, filteredData = []\<rparr>)\<rparr>"


section \<open>loadDataset\<close>

record dataset =
  name :: string
  icon :: string
  rawPath :: string
  cleanedPath :: string
  description :: string

definition DATASETS :: "string \<Rightarrow> dataset option" where
  "DATASETS = map_of
     [(''field'', \<lparr>name = ''Field Reports'', icon = ''fa-flag'',
         rawPath = ''data/raw/field.csv'', cleanedPath = ''data/cleaned/cleaned_field.csv'',
         description = ''Field failure and incident reports''\<rparr>),
      (''manufacturing'', \<lparr>name = ''Manufacturing Data'', icon = ''fa-industry'',
         rawPath = ''data/raw/manufacturing.csv'',
         cleanedPath = ''data/cleaned/cleaned_manufacturing.csv'',
         description = ''Manufacturing process and quality data''\<rparr>),
      (''sales'', \<lparr>name = ''Sales Data'', icon = ''fa-shopping-cart'',
         rawPath = ''data/raw/sales.csv'', cleanedPath = ''data/cleaned/cleaned_sales.csv'',
         description = ''Sales transactions and customer data''\<rparr>),
      (''testing'', \<lparr>name = ''Testing Data'', icon = ''fa-flask'',
         rawPath = ''data/raw/testing.csv'', cleanedPath = ''data/cleaned/cleaned_testing.csv'',
         description = ''Product testing and quality assurance data''\<rparr>)]"

text \<open>
  The network is a parameter: \<open>fetch_text path\<close> is the text that
  \<open>await (await fetch(path)).text()\<close> yields, or the error it rejects with.
  \<open>loadDataset\<close> returns the globals it leaves behind and whether it ended in its
  \<open>catch\<close> block (the alert). Every assignment is made at the place the source makes
  it, so the state returned on failure is the state at the throw. An unknown dataset
  name makes \<open>dataset\<close> undefined, and reading \<open>dataset.rawPath\<close> throws. The calls
  that only touch the page (loading overlay, buttons, metrics, tables) are left out.
  \<open>DATASETS\<close> holds the catalogue's own keys. The names that the script's lookup
  also finds because \<open>Object.prototype\<close> defines them (\<open>toString\<close>, \<open>constructor\<close>
  and the like, for which the load would go on to fetch the path \<open>undefined\<close>) are
  outside the model: the callers pass catalogue keys only, the literal \<open>'field'\<close> and
  the keys of the buttons built from \<open>Object.keys(DATASETS)\<close>.
\<close>

datatype outcome = Loaded | Failed

definition loadDataset :: "(string \<Rightarrow> js_error + string) \<Rightarrow> string \<Rightarrow> app_state \<Rightarrow> app_state \<times> outcome" where
  "loadDataset fetch_text datasetName s =
     (let s1 = s\<lparr>currentDataset := datasetName\<rparr> in
      case DATASETS datasetName of
        None \<Rightarrow> (s1, Failed)
      | Some dataset \<Rightarrow>
          (case fetch_text (rawPath dataset) of
             Inl e \<Rightarrow> (s1, Failed)
           | Inr rawText \<Rightarrow>
               (case parseCSV rawText of
                  Inl e \<Rightarrow> (s1, Failed)
                | Inr rawRows \<Rightarrow>
                    (let s2 = s1\<lparr>rawData := rawRows\<rparr> in
                     case fetch_text (cleanedPath dataset) of
                       Inl e \<Rightarrow> (s2, Failed)
                     | Inr cleanedText \<Rightarrow>
                         (case parseCSV cleanedText of
                            Inl e \<Rightarrow> (s2, Failed)
                          | Inr cleanedRows \<Rightarrow>
                              (let s3 = s2\<lparr>cleanedData := cleanedRows\<rparr>;
                                   s4 = s3\<lparr>dataStats :=
                                           Some (calculateStats (rawData s3) (cleanedData s3))\<rparr>;
                                   s5 = s4\<lparr>paginationState := (paginationState s4)
                                           (Raw := (paginationState s4 Raw)
                                              \<lparr>filteredData := rawData s4, currentPage := 1\<rparr>)\<rparr>;
                                   s6 = s5\<lparr>paginationState := (paginationState s5)
                                           (Cleaned := (paginationState s5 Cleaned)
                                              \<lparr>filteredData := cleanedData s5, currentPage := 1\<rparr>)\<rparr>
                               in (s6, Loaded)))))))"


section \<open>Search, page size and page navigation\<close>

text \<open>\<open>Array.prototype.some\<close> and \<open>Array.prototype.filter\<close>, as the loops they are.\<close>

fun js_some :: "('a \<Rightarrow> bool) \<Rightarrow> 'a list \<Rightarrow> bool" where
  "js_some p [] = False"
| "js_some p (x # xs) = (if p x then True else js_some p xs)"

fun js_filter :: "('a \<Rightarrow> bool) \<Rightarrow> 'a list \<Rightarrow> 'a list \<Rightarrow> 'a list" where
  "js_filter p [] kept = kept"
| "js_filter p (x # xs) kept = js_filter p xs (if p x then kept @ [x] else kept)"

text \<open>
  \<open>filterData(type, searchTerm)\<close>. A cell is a string or null, so
  \<open>value.toString()\<close> is the cell itself.
\<close>

definition filterData :: "view \<Rightarrow> string \<Rightarrow> app_state \<Rightarrow> app_state" where
  "filterData type searchTerm s =
     (let sourceData = (if type = Raw then rawData s else cleanedData s);
          found = (if searchTerm = [] then sourceData
                   else js_filter
                          (\<lambda>item. js_some
                             (\<lambda>value. case value of
                                         None \<Rightarrow> False
                                       | Some str \<Rightarrow> js_includes (toLowerCase str) searchTerm)
                             (Object_values item))
                          sourceData [])
      in s\<lparr>paginationState := (paginationState s)
             (type := (paginationState s type)\<lparr>filteredData := found, currentPage := 1\<rparr>)\<rparr>)"

text \<open>The \<open>input\<close> listeners of \<open>initializeSearch\<close>: the term is lower-cased first.\<close>

definition search_input :: "view \<Rightarrow> string \<Rightarrow> app_state \<Rightarrow> app_state" where
  "search_input type term s = filterData type (toLowerCase term) s"

text \<open>
  The \<open>change\<close> listeners of \<open>initializeDataTables\<close>; \<open>n\<close> is the integer
  \<open>parseInt\<close> returned (an option value that is no number, for which it returns
  \<open>NaN\<close>, is outside the model).
\<close>

definition limit_change :: "view \<Rightarrow> int \<Rightarrow> app_state \<Rightarrow> app_state" where
  "limit_change type n s =
     s\<lparr>paginationState := (paginationState s)
         (type := (paginationState s type)\<lparr>itemsPerPage := n, currentPage := 1\<rparr>)\<rparr>"

text \<open>
  \<open>Math.ceil(filteredData.length / itemsPerPage)\<close>. For a page size of zero
  JavaScript divides to \<open>Infinity\<close> or \<open>NaN\<close> where HOL divides to zero; the
  statements about \<open>maxPage\<close> are made for positive page sizes.
\<close>

definition maxPage :: "view_state \<Rightarrow> int" where
  "maxPage st = \<lceil>real (length (filteredData st)) / real_of_int (itemsPerPage st)\<rceil>"

text \<open>
  The \<open>click\<close> listeners of \<open>initializePagination\<close>. The source has one pair for
  each view, the same but for the view's name.
\<close>

definition prev_click :: "view \<Rightarrow> app_state \<Rightarrow> app_state" where
  "prev_click type s =
     (if currentPage (paginationState s type) > 1
      then s\<lparr>paginationState := (paginationState s)
              (type := (paginationState s type)
                 \<lparr>currentPage := currentPage (paginationState s type) - 1\<rparr>)\<rparr>
      else s)"

definition next_click :: "view \<Rightarrow> app_state \<Rightarrow> app_state" where
  "next_click type s =
     (if currentPage (paginationState s type) < maxPage (paginationState s type)
      then s\<lparr>paginationState := (paginationState s)
              (type := (paginationState s type)
                 \<lparr>currentPage := currentPage (paginationState s type) + 1\<rparr>)\<rparr>
      else s)"

text \<open>The transitions of the state machine, and the state they lead to.\<close>

datatype event =
    Load "string \<Rightarrow> js_error + string" string
  | Search view string
  | ChangePageSize view int
  | PageForward view
  | PageBack view

fun fire :: "event \<Rightarrow> app_state \<Rightarrow> app_state" where
  "fire (Load fetch_text datasetName) s = fst (loadDataset fetch_text datasetName s)"
| "fire (Search type term) s = search_input type term s"
| "fire (ChangePageSize type n) s = limit_change type n s"
| "fire (PageForward type) s = next_click type s"
| "fire (PageBack type) s = prev_click type s"


section \<open>Example data\<close>

text \<open>
  Three raw rows and one cleaned row; a view of five rows shown two to a page, on the
  given page; and a network on which the raw file of the field dataset arrives and
  every other request fails.
\<close>

definition sample_state :: app_state where
  "sample_state = initial_state
     \<lparr>rawData := [[(''id'', Some ''7''), (''name'', Some ''Ann Lee'')],
                  [(''id'', Some ''8''), (''name'', None)],
                  [(''id'', Some ''9''), (''name'', Some ''joANNa'')]],
      cleanedData := [[(''id'', Some ''7''), (''name'', Some ''Ann Lee'')]]\<rparr>"

definition five_rows :: "int \<Rightarrow> app_state" where
  "five_rows page = initial_state
     \<lparr>paginationState := (paginationState initial_state)
        (Raw := \<lparr>currentPage = page, itemsPerPage = 2,
                  filteredData = [[(''n'', Some ''1'')], [(''n'', Some ''2'')], [(''n'', Some ''3'')],
                                  [(''n'', Some ''4'')], [(''n'', Some ''5'')]]\<rparr>)\<rparr>"

definition raw_only_network :: "string \<Rightarrow> js_error + string" where
  "raw_only_network path =
     (if path = ''data/raw/field.csv'' then Inr ''a\<newline>1'' else Inl NetworkError)"


section \<open>The parser against its description\<close>

text \<open>
  The description's vocabulary, written down separately from the code: what a field
  is stored as, the column names of a text, its data lines, and the data lines with as
  many fields as the header.
\<close>

definition field_cell :: "string \<Rightarrow> cell" where
  "field_cell v = (if trim v = [] \<or> trim v = ''null'' then None else Some (trim v))"

definition columns :: "string \<Rightarrow> string list" where
  "columns text =
     map (\<lambda>h. toLowerCase (trim h)) (js_split CHR '','' (hd (js_split CHR ''\<newline>'' (trim text))))"

definition data_lines :: "string \<Rightarrow> string list" where
  "data_lines text = tl (js_split CHR ''\<newline>'' (trim text))"

definition kept_lines :: "string \<Rightarrow> string list" where
  "kept_lines text =
     filter (\<lambda>line. length (js_split CHR '','' line) = length (columns text)) (data_lines text)"

text \<open>
  The object the loop over the headers builds, as a fold, and the row it leaves (used in
  the proofs only).
\<close>

definition assign_all :: "(string \<times> cell) list \<Rightarrow> js_object \<Rightarrow> js_object" where
  "assign_all ps ob = fold (\<lambda>(k, c). set_prop k c) ps ob"

definition fold_row :: "string list \<Rightarrow> string list \<Rightarrow> row \<Rightarrow> row" where
  "fold_row hs vs r =
     own_props (assign_all (zip hs (map field_cell vs)) \<lparr>proto_intact = True, own_props = r\<rparr>)"

lemma js_split_not_Nil: "js_split sep s \<noteq> []"
  by (induction s) (auto split: list.splits)

lemma js_split_no_sep: "sep \<notin> set s \<Longrightarrow> js_split sep s = [s]"
  by (induction s) auto









lemma values_overwrite: "snd ` set (overwrite k v r) \<subseteq> insert v (snd ` set r)"
proof (induction r)
  case Nil
  then show ?case by simp
next
  case (Cons p r)
  obtain k' v' where p: "p = (k', v')" by (cases p)
  from Cons.IH show ?case
    by (cases "k' = k") (auto simp: p)
qed

lemma values_insert_index: "snd ` set (insert_index k v r) = insert v (snd ` set r)"
proof (induction r)
  case Nil
  then show ?case by simp
next
  case (Cons p r)
  obtain k' v' where p: "p = (k', v')" by (cases p)
  from Cons.IH show ?case
    by (cases "is_array_index k' \<and> decimal_value k' < decimal_value k")
       (simp_all add: p insert_commute)
qed

lemma values_define_own: "snd ` set (define_own k v r) \<subseteq> insert v (snd ` set r)"
  using values_overwrite [of k v r]
  by (cases "k \<in> fst ` set r"; cases "is_array_index k")
     (simp_all add: define_own_def values_insert_index)


lemma own_props_set_prop:
  "own_props (set_prop k v ob) =
     (if k = ''__proto__'' \<and> proto_intact ob then own_props ob
      else define_own k v (own_props ob))"
  by (simp add: set_prop_def split: option.splits)


lemma assign_all_Cons: "assign_all ((k, c) # ps) ob = assign_all ps (set_prop k c ob)"
  by (simp add: assign_all_def)

lemma assign_all_Nil: "assign_all [] ob = ob"
  by (simp add: assign_all_def)








lemma values_assign_all:
  "snd ` set (own_props (assign_all ps ob)) \<subseteq> snd ` set (own_props ob) \<union> snd ` set ps"
proof (induction ps arbitrary: ob)
  case Nil
  then show ?case by (simp add: assign_all_Nil)
next
  case (Cons p ps)
  obtain k c where p: "p = (k, c)" by (cases p)
  have "snd ` set (own_props (set_prop k c ob)) \<subseteq> insert c (snd ` set (own_props ob))"
    using values_define_own [of k c "own_props ob"] by (auto simp: own_props_set_prop)
  with Cons.IH [of "set_prop k c ob"] show ?case
    by (auto simp: p assign_all_Cons)
qed

lemma forEach_loop_fold:
  "index + length hs \<le> length vs \<Longrightarrow>
   forEach_loop hs index vs ob = Inr (assign_all (zip hs (map field_cell (drop index vs))) ob)"
proof (induction hs arbitrary: index ob)
  case Nil
  then show ?case by (simp add: assign_all_Nil)
next
  case (Cons h hs)
  then have lt: "index < length vs" by simp
  then have d: "drop index vs = vs ! index # drop (Suc index) vs"
    by (simp add: Cons_nth_drop_Suc)
  from Cons.prems have "Suc index + length hs \<le> length vs" by simp
  from Cons.IH [OF this] lt show ?case
    by (simp add: d assign_all_Cons field_cell_def Let_def)
qed

lemma forEach_header_fold:
  "index + length hs \<le> length vs \<Longrightarrow>
   forEach_header hs index vs r = Inr (fold_row hs (drop index vs) r)"
  by (simp add: forEach_header_def forEach_loop_fold fold_row_def)









lemma parse_lines_eq:
  "parse_lines lines hs i data =
     Inr (data @ map (\<lambda>l. fold_row hs (js_split CHR '','' l) [])
                     (filter (\<lambda>l. length (js_split CHR '','' l) = length hs) (drop i lines)))"
proof (induction lines hs i data rule: parse_lines.induct)
  case (1 lines hs i data)
  show ?case
  proof (cases "i < length lines")
    case False
    then show ?thesis by (simp add: parse_lines.simps [of lines hs i data])
  next
    case True
    then have d: "drop i lines = lines ! i # drop (Suc i) lines"
      by (simp add: Cons_nth_drop_Suc)
    show ?thesis
    proof (cases "length (js_split CHR '','' (lines ! i)) = length hs")
      case False
      with True "1.IH"(2) show ?thesis
        by (simp add: parse_lines.simps [of lines hs i data] d)
    next
      case ok: True
      then have fe: "forEach_header hs 0 (js_split CHR '','' (lines ! i)) [] =
                 Inr (fold_row hs (js_split CHR '','' (lines ! i)) [])"
        using forEach_header_fold [of 0 hs "js_split CHR '','' (lines ! i)" "[]"]
        by simp
      from True ok "1.IH"(1) [OF True refl _ fe] show ?thesis
        by (simp add: parse_lines.simps [of lines hs i data] d fe)
    qed
  qed
qed

lemma parseCSV_eq:
  "parseCSV text =
     Inr (map (\<lambda>l. fold_row (columns text) (js_split CHR '','' l) [])
              (kept_lines text))"
proof -
  obtain l ls where s: "js_split CHR ''\<newline>'' (trim text) = l # ls"
    using js_split_not_Nil by (cases "js_split CHR ''\<newline>'' (trim text)") auto
  show ?thesis
    by (simp add: parseCSV_def s parse_lines_eq columns_def data_lines_def kept_lines_def Let_def)
qed


lemma kept_lines_arity:
  "line \<in> set (kept_lines text) \<Longrightarrow> length (js_split CHR '','' line) = length (columns text)"
  by (simp add: kept_lines_def)


text \<open>No row that \<open>parseCSV\<close> builds holds the empty string: such a field became null.\<close>

lemma field_cell_not_empty: "field_cell v \<noteq> Some []"
  by (simp add: field_cell_def)

lemma values_fold_row: "snd ` set (fold_row hs vs []) \<subseteq> field_cell ` set vs"
proof -
  have "snd ` set (zip hs (map field_cell vs)) \<subseteq> field_cell ` set vs"
    by (auto dest: set_zip_rightD)
  with values_assign_all [of "zip hs (map field_cell vs)" "\<lparr>proto_intact = True, own_props = []\<rparr>"]
  show ?thesis
    by (auto simp: fold_row_def)
qed

lemma parseCSV_no_empty_cells:
  "parseCSV text = Inr rows \<Longrightarrow> row \<in> set rows \<Longrightarrow> Some [] \<notin> set (Object_values row)"
  using values_fold_row [of "columns text"] field_cell_not_empty
  by (fastforce simp: parseCSV_eq Object_values_def)

text \<open>
  C5. \<open>parseCSV\<close> never raises. Its result has one row for each data line whose
  comma-split field count equals the header's, in the order of the lines, each row
  being what the loop over the headers builds from that line; every other data line
  is left out, and nothing else is returned (no error, no count). Parsing
  \<open>"a,b\n1,2,3"\<close> yields the empty sequence, and so does every text whose trimmed
  form has no line break (a header only).
\<close>

theorem parseCSV_strict_arity:
  "(\<exists>rows. parseCSV text = Inr rows \<and>
      list_all2 (\<lambda>row line. forEach_header (columns text) 0 (js_split CHR '','' line) [] = Inr row)
        rows
        (filter (\<lambda>line. length (js_split CHR '','' line) = length (columns text)) (data_lines text)))
   \<and> parseCSV ''a,b\<newline>1,2,3'' = Inr []
   \<and> (CHR ''\<newline>'' \<notin> set (trim text) \<longrightarrow> parseCSV text = Inr [])"
proof (intro conjI impI)
  let ?f = "\<lambda>l. fold_row (columns text) (js_split CHR '','' l) []"
  have k: "filter (\<lambda>line. length (js_split CHR '','' line) = length (columns text)) (data_lines text)
           = kept_lines text"
    by (simp add: kept_lines_def)
  have "list_all2 (\<lambda>row line. forEach_header (columns text) 0 (js_split CHR '','' line) [] = Inr row)
          (map ?f (kept_lines text)) (kept_lines text)"
    using forEach_header_fold [of 0 "columns text" _ "[]"]
    by (simp add: list_all2_map1 list_all2_same kept_lines_arity)
  then show "\<exists>rows. parseCSV text = Inr rows \<and>
      list_all2 (\<lambda>row line. forEach_header (columns text) 0 (js_split CHR '','' line) [] = Inr row)
        rows
        (filter (\<lambda>line. length (js_split CHR '','' line) = length (columns text)) (data_lines text))"
    unfolding k using parseCSV_eq [of "text"] by blast
next
  show "parseCSV ''a,b\<newline>1,2,3'' = Inr []"
    by code_simp
next
  assume "CHR ''\<newline>'' \<notin> set (trim text)"
  then have "data_lines text = []"
    by (simp add: data_lines_def js_split_no_sep)
  then show "parseCSV text = Inr []"
    by (simp add: parseCSV_eq kept_lines_def)
qed

theorem parseCSV_strict_arity_witness:
  "parseCSV ''x\<newline>1,2\<newline>3\<newline>4,5,6\<newline>7'' = Inr [[(''x'', Some ''3'')], [(''x'', Some ''7'')]]
   \<and> parseCSV ''a,b,c'' = Inr []"
proof -
  let ?t = "''x\<newline>1,2\<newline>3\<newline>4,5,6\<newline>7''"
  have f: "filter (\<lambda>line. length (js_split CHR '','' line) = length (columns ?t)) (data_lines ?t)
           = [''3'', ''7'']"
    by code_simp
  have t: "CHR ''\<newline>'' \<notin> set (trim ''a,b,c'')"
    by code_simp
  have r3: "forEach_header (columns ?t) 0 (js_split CHR '','' ''3'') [] = Inr [(''x'', Some ''3'')]"
    by code_simp
  have r7: "forEach_header (columns ?t) 0 (js_split CHR '','' ''7'') [] = Inr [(''x'', Some ''7'')]"
    by code_simp
  from parseCSV_strict_arity [of ?t] obtain rows where
    p: "parseCSV ?t = Inr rows" and
    l: "list_all2 (\<lambda>row line. forEach_header (columns ?t) 0 (js_split CHR '','' line) [] = Inr row)
          rows (filter (\<lambda>line. length (js_split CHR '','' line) = length (columns ?t)) (data_lines ?t))"
    by blast
  from l have "rows = [[(''x'', Some ''3'')], [(''x'', Some ''7'')]]"
    unfolding f list_all2_Cons2 list_all2_Nil2 r3 r7 by blast
  moreover from t parseCSV_strict_arity [of "''a,b,c''"] have "parseCSV ''a,b,c'' = Inr []"
    by blast
  ultimately show ?thesis using p by blast
qed





section \<open>The quality calculator against its description\<close>

text \<open>
  The description's vocabulary: a cell is null or empty (missing) when it is null or the
  empty string; \<open>y\<close> is \<open>x\<close> rounded to one decimal digit when \<open>y\<close> is a whole
  number of tenths at most 0.05 away from \<open>x\<close>.
\<close>

definition is_missing :: "cell \<Rightarrow> bool" where
  "is_missing v = (v = None \<or> v = Some [])"

definition rounds_to_tenth :: "real \<Rightarrow> real \<Rightarrow> bool" where
  "rounds_to_tenth y x = (real_of_int \<lfloor>y * 10\<rfloor> = y * 10 \<and> \<bar>y - x\<bar> \<le> 1 / 20)"

lemma forEach_value_totalFields:
  "totalFields (fst (forEach_value vs (c, h))) = totalFields c + int (length vs)"
  by (induction vs arbitrary: c h) (simp_all add: Let_def)

lemma forEach_value_rawNulls:
  "rawNulls (fst (forEach_value vs (c, h))) = rawNulls c + int (length (filter is_missing vs))"
  by (induction vs arbitrary: c h) (simp_all add: Let_def is_missing_def)

lemma forEach_value_validFields:
  "validFields (fst (forEach_value vs (c, h))) =
     validFields c + int (length (filter (\<lambda>v. \<not> is_missing v) vs))"
  by (induction vs arbitrary: c h) (simp_all add: Let_def is_missing_def)

lemma forEach_value_rawMissing:
  "rawMissing (fst (forEach_value vs (c, h))) =
     rawMissing c + (if \<not> h \<and> (\<exists>v\<in>set vs. is_missing v) then 1 else 0)"
  by (induction vs arbitrary: c h) (auto simp: Let_def is_missing_def)

lemma forEach_row_totalFields:
  "totalFields (forEach_row rows c) =
     totalFields c + (\<Sum>row\<leftarrow>rows. int (length (Object_values row)))"
  by (induction rows arbitrary: c) (simp_all add: forEach_value_totalFields)

lemma forEach_row_rawNulls:
  "rawNulls (forEach_row rows c) =
     rawNulls c + (\<Sum>row\<leftarrow>rows. int (length (filter is_missing (Object_values row))))"
  by (induction rows arbitrary: c) (simp_all add: forEach_value_rawNulls)

lemma forEach_row_validFields:
  "validFields (forEach_row rows c) =
     validFields c + (\<Sum>row\<leftarrow>rows. int (length (filter (\<lambda>v. \<not> is_missing v) (Object_values row))))"
  by (induction rows arbitrary: c) (simp_all add: forEach_value_validFields)

lemma forEach_row_rawMissing:
  "rawMissing (forEach_row rows c) =
     rawMissing c + int (length (filter (\<lambda>row. \<exists>v\<in>set (Object_values row). is_missing v) rows))"
  by (induction rows arbitrary: c) (simp_all add: forEach_value_rawMissing)

text \<open>\<open>toFixed1\<close> rounds to one decimal digit: a number of tenths, at most 0.05 away.\<close>

lemma toFixed1_tenths: "\<exists>n::int. toFixed1 x = of_int n / 10"
  unfolding toFixed1_def by (cases "x < 0") (auto intro: exI [of _ "- \<lfloor>- x * 10 + 1 / 2\<rfloor>"])

lemma round_tenth_near: "\<bar>real_of_int \<lfloor>y * 10 + 1 / 2\<rfloor> / 10 - y\<bar> \<le> 1 / 20"
proof -
  have "real_of_int \<lfloor>y * 10 + 1 / 2\<rfloor> \<le> y * 10 + 1 / 2"
    and "y * 10 + 1 / 2 < real_of_int \<lfloor>y * 10 + 1 / 2\<rfloor> + 1"
    by linarith+
  then show ?thesis by linarith
qed

lemma toFixed1_near: "\<bar>toFixed1 x - x\<bar> \<le> 1 / 20"
proof (cases "x < 0")
  case True
  then have "toFixed1 x = - (real_of_int \<lfloor>(- x) * 10 + 1 / 2\<rfloor> / 10)"
    by (simp add: toFixed1_def)
  with round_tenth_near [of "- x"] show ?thesis
    by linarith
next
  case False
  with round_tenth_near [of x] show ?thesis
    by (simp add: toFixed1_def)
qed

lemma toFixed1_rounds: "rounds_to_tenth (toFixed1 x) x"
proof -
  obtain n :: int where n: "toFixed1 x = real_of_int n / 10"
    using toFixed1_tenths by blast
  then have "real_of_int \<lfloor>toFixed1 x * 10\<rfloor> = toFixed1 x * 10"
    by simp
  with toFixed1_near [of x] show ?thesis
    by (simp add: rounds_to_tenth_def)
qed

lemma calc_raw_total: "total (raw (calculateStats rs cs)) = int (length rs)"
  by (simp add: calculateStats_def Let_def)

lemma calc_raw_missing:
  "missing (raw (calculateStats rs cs)) =
     int (length (filter (\<lambda>row. \<exists>v\<in>set (Object_values row). is_missing v) rs))"
  by (simp add: calculateStats_def Let_def forEach_row_rawMissing)

lemma calc_raw_nulls:
  "nulls (raw (calculateStats rs cs)) =
     (\<Sum>row\<leftarrow>rs. int (length (filter is_missing (Object_values row))))"
  by (simp add: calculateStats_def Let_def forEach_row_rawNulls)

lemma calc_raw_completeness:
  "completeness (raw (calculateStats rs cs)) =
     (let totalF = (\<Sum>row\<leftarrow>rs. int (length (Object_values row)));
          validF = (\<Sum>row\<leftarrow>rs. int (length (filter (\<lambda>v. \<not> is_missing v) (Object_values row))))
      in if totalF = 0 then 0 else toFixed1 (of_int validF / of_int totalF * 100))"
proof -
  have "0 \<le> (\<Sum>row\<leftarrow>rs. int (length (Object_values row)))"
    by (rule sum_list_nonneg) auto
  then show ?thesis
    by (auto simp: calculateStats_def Let_def forEach_row_totalFields forEach_row_validFields)
qed

lemma calc_raw_validity:
  "validity (raw (calculateStats rs cs)) =
     (if rs = [] then 0
      else toFixed1 (of_int (int (length rs) - missing (raw (calculateStats rs cs)))
                       / of_int (int (length rs)) * 100))"
  by (simp add: calculateStats_def Let_def)

lemma calc_quality:
  "quality (calculateStats rs cs) =
     (if rs = [] then 0 else toFixed1 (real (length cs) / real (length rs) * 100))"
  by (simp add: calculateStats_def Let_def)

lemma calc_removed: "removed (calculateStats rs cs) = int (length rs) - int (length cs)"
  by (simp add: calculateStats_def Let_def)

lemma calc_cleaned:
  "cleaned (calculateStats rs cs) =
     \<lparr>total = int (length cs), missing = 0, nulls = 0,
      completeness = 100, validity = 100, consistency = 100\<rparr>"
  by (simp add: calculateStats_def Let_def)

text \<open>
  C7. For every pair of row sequences, \<open>calculateStats\<close> returns as \<open>raw.missing\<close> the
  number of raw rows with at least one null or empty field (a row counted once), as
  \<open>raw.nulls\<close> the number of null or empty cells over all raw rows, as
  \<open>raw.completeness\<close> the share of the other cells among all cells times 100, rounded
  to one decimal digit (0 without cells), and as \<open>raw.validity\<close> the share of the rows
  not counted as missing times 100, rounded to one decimal digit (0 without rows). No
  row that \<open>parseCSV\<close> builds holds the empty string, and for rows without it the two
  counts are the rows with a null field and the null cells.
\<close>

theorem calculateStats_raw_metrics:
  "missing (raw (calculateStats rawRows cleanedRows)) =
     int (length (filter (\<lambda>row. \<exists>v\<in>set (Object_values row). is_missing v) rawRows))
   \<and> nulls (raw (calculateStats rawRows cleanedRows)) =
     (\<Sum>row\<leftarrow>rawRows. int (length (filter is_missing (Object_values row))))
   \<and> ((\<Sum>row\<leftarrow>rawRows. int (length (Object_values row))) = 0 \<longrightarrow>
        completeness (raw (calculateStats rawRows cleanedRows)) = 0)
   \<and> ((\<Sum>row\<leftarrow>rawRows. int (length (Object_values row))) \<noteq> 0 \<longrightarrow>
        rounds_to_tenth (completeness (raw (calculateStats rawRows cleanedRows)))
          (real_of_int (\<Sum>row\<leftarrow>rawRows. int (length (filter (\<lambda>v. \<not> is_missing v) (Object_values row))))
             / real_of_int (\<Sum>row\<leftarrow>rawRows. int (length (Object_values row))) * 100))
   \<and> (rawRows = [] \<longrightarrow> validity (raw (calculateStats rawRows cleanedRows)) = 0)
   \<and> (rawRows \<noteq> [] \<longrightarrow>
        rounds_to_tenth (validity (raw (calculateStats rawRows cleanedRows)))
          (real_of_int (int (length rawRows) - missing (raw (calculateStats rawRows cleanedRows)))
             / real_of_int (int (length rawRows)) * 100))
   \<and> ((\<forall>row\<in>set rawRows. Some [] \<notin> set (Object_values row)) \<longrightarrow>
        missing (raw (calculateStats rawRows cleanedRows)) =
          int (length (filter (\<lambda>row. None \<in> set (Object_values row)) rawRows)) \<and>
        nulls (raw (calculateStats rawRows cleanedRows)) =
          (\<Sum>row\<leftarrow>rawRows. int (length (filter (\<lambda>v. v = None) (Object_values row)))))"
proof (intro conjI impI)
  assume ne: "\<forall>row\<in>set rawRows. Some [] \<notin> set (Object_values row)"
  have m: "\<And>row v. row \<in> set rawRows \<Longrightarrow> v \<in> set (Object_values row) \<Longrightarrow> is_missing v = (v = None)"
    using ne by (auto simp: is_missing_def)
  have "filter (\<lambda>row. \<exists>v\<in>set (Object_values row). is_missing v) rawRows =
        filter (\<lambda>row. None \<in> set (Object_values row)) rawRows"
    by (rule filter_cong) (auto simp: m)
  then show "missing (raw (calculateStats rawRows cleanedRows)) =
          int (length (filter (\<lambda>row. None \<in> set (Object_values row)) rawRows))"
    by (simp add: calc_raw_missing)
  have "map (\<lambda>row. int (length (filter is_missing (Object_values row)))) rawRows =
        map (\<lambda>row. int (length (filter (\<lambda>v. v = None) (Object_values row)))) rawRows"
  proof (rule map_cong [OF refl])
    fix row assume "row \<in> set rawRows"
    then have "filter is_missing (Object_values row) = filter (\<lambda>v. v = None) (Object_values row)"
      by (intro filter_cong refl) (simp add: m)
    then show "int (length (filter is_missing (Object_values row))) =
               int (length (filter (\<lambda>v. v = None) (Object_values row)))"
      by simp
  qed
  then show "nulls (raw (calculateStats rawRows cleanedRows)) =
          (\<Sum>row\<leftarrow>rawRows. int (length (filter (\<lambda>v. v = None) (Object_values row))))"
    unfolding calc_raw_nulls by (rule arg_cong [where f = sum_list])
next
  assume "(\<Sum>row\<leftarrow>rawRows. int (length (Object_values row))) = 0"
  then show "completeness (raw (calculateStats rawRows cleanedRows)) = 0"
    by (simp add: calc_raw_completeness)
next
  assume "(\<Sum>row\<leftarrow>rawRows. int (length (Object_values row))) \<noteq> 0"
  then have "completeness (raw (calculateStats rawRows cleanedRows)) =
      toFixed1 (real_of_int (\<Sum>row\<leftarrow>rawRows. int (length (filter (\<lambda>v. \<not> is_missing v) (Object_values row))))
             / real_of_int (\<Sum>row\<leftarrow>rawRows. int (length (Object_values row))) * 100)"
    by (simp add: calc_raw_completeness)
  then show "rounds_to_tenth (completeness (raw (calculateStats rawRows cleanedRows)))
          (real_of_int (\<Sum>row\<leftarrow>rawRows. int (length (filter (\<lambda>v. \<not> is_missing v) (Object_values row))))
             / real_of_int (\<Sum>row\<leftarrow>rawRows. int (length (Object_values row))) * 100)"
    by (simp only: toFixed1_rounds)
next
  assume "rawRows = []"
  then show "validity (raw (calculateStats rawRows cleanedRows)) = 0"
    by (simp add: calc_raw_validity)
next
  assume "rawRows \<noteq> []"
  then have "validity (raw (calculateStats rawRows cleanedRows)) =
      toFixed1 (real_of_int (int (length rawRows) - missing (raw (calculateStats rawRows cleanedRows)))
             / real_of_int (int (length rawRows)) * 100)"
    using calc_raw_validity [of rawRows cleanedRows] by simp
  then show "rounds_to_tenth (validity (raw (calculateStats rawRows cleanedRows)))
          (real_of_int (int (length rawRows) - missing (raw (calculateStats rawRows cleanedRows)))
             / real_of_int (int (length rawRows)) * 100)"
    by (simp only: toFixed1_rounds)
qed (rule calc_raw_missing calc_raw_nulls)+

theorem calculateStats_raw_metrics_witness:
  "Some [] \<notin> set (Object_values [(''a'', Some ''1''), (''b'', None), (''c'', None)]) \<and>
   Some [] \<notin> set (Object_values [(''a'', Some ''2''), (''b'', Some ''x''), (''c'', Some ''y'')]) \<and>
   missing (raw (calculateStats
      [[(''a'', Some ''1''), (''b'', None), (''c'', None)],
       [(''a'', Some ''2''), (''b'', Some ''x''), (''c'', Some ''y'')]] [])) = 1 \<and>
   nulls (raw (calculateStats
      [[(''a'', Some ''1''), (''b'', None), (''c'', None)],
       [(''a'', Some ''2''), (''b'', Some ''x''), (''c'', Some ''y'')]] [])) = 2 \<and>
   rounds_to_tenth (completeness (raw (calculateStats
      [[(''a'', Some ''1''), (''b'', None), (''c'', None)],
       [(''a'', Some ''2''), (''b'', Some ''x''), (''c'', Some ''y'')]] []))) (200 / 3) \<and>
   rounds_to_tenth (validity (raw (calculateStats
      [[(''a'', Some ''1''), (''b'', None), (''c'', None)],
       [(''a'', Some ''2''), (''b'', Some ''x''), (''c'', Some ''y'')]] []))) 50"
proof -
  let ?R = "[[(''a'', Some ''1''), (''b'', None), (''c'', None)],
             [(''a'', Some ''2''), (''b'', Some ''x''), (''c'', Some ''y'')]]"
  note t = calculateStats_raw_metrics [of ?R "[]"]
  have e1: "Some [] \<notin> set (Object_values [(''a'', Some ''1''), (''b'', None), (''c'', None)])"
    and e2: "Some [] \<notin> set (Object_values [(''a'', Some ''2''), (''b'', Some ''x''), (''c'', Some ''y'')])"
    by (simp_all add: Object_values_def)
  then have ne: "\<forall>row\<in>set ?R. Some [] \<notin> set (Object_values row)"
    by simp
  have c0: "int (length (filter (\<lambda>row. None \<in> set (Object_values row)) ?R)) = 1"
    and c1: "(\<Sum>row\<leftarrow>?R. int (length (filter (\<lambda>v. v = None) (Object_values row)))) = 2"
    and tot: "(\<Sum>row\<leftarrow>?R. int (length (Object_values row))) = 6"
    and val: "(\<Sum>row\<leftarrow>?R. int (length (filter (\<lambda>v. \<not> is_missing v) (Object_values row)))) = 4"
    by (simp_all add: Object_values_def is_missing_def)
  from t ne have m: "missing (raw (calculateStats ?R [])) = 1"
    and n: "nulls (raw (calculateStats ?R [])) = 2"
    unfolding c0 c1 by blast+
  from t have "rounds_to_tenth (completeness (raw (calculateStats ?R []))) (real_of_int 4 / real_of_int 6 * 100)"
    unfolding tot val by simp
  then have c: "rounds_to_tenth (completeness (raw (calculateStats ?R []))) (200 / 3)"
    by simp
  from t have "rounds_to_tenth (validity (raw (calculateStats ?R [])))
      (real_of_int (int (length ?R) - missing (raw (calculateStats ?R []))) / real_of_int (int (length ?R)) * 100)"
    by blast
  then have v: "rounds_to_tenth (validity (raw (calculateStats ?R []))) 50"
    unfolding m by simp
  from e1 e2 m n c v show ?thesis by blast
qed

text \<open>
  C8. Every result of \<open>calculateStats\<close> has \<open>removed = raw.total - cleaned.total\<close>,
  \<open>quality\<close> equal to \<open>cleaned.total / raw.total * 100\<close> rounded to one decimal digit
  (0 when \<open>raw.total\<close> is 0), and the cleaned side fixed at no missing rows, no nulls
  and 100 for each percentage, whatever the cleaned rows hold. For the raw rows
  \<open>{a:1}\<close>, \<open>{a:null}\<close> and the cleaned row \<open>{a:1}\<close> (the cell 1 kept as the string
  a parsed row holds) it returns one missing row, quality 50, one removed row,
  completeness 50 and validity 50.
\<close>

theorem calculateStats_invariants:
  "removed (calculateStats rawRows cleanedRows) =
     total (raw (calculateStats rawRows cleanedRows)) - total (cleaned (calculateStats rawRows cleanedRows))
   \<and> total (raw (calculateStats rawRows cleanedRows)) = int (length rawRows)
   \<and> (total (raw (calculateStats rawRows cleanedRows)) = 0 \<longrightarrow>
        quality (calculateStats rawRows cleanedRows) = 0)
   \<and> (total (raw (calculateStats rawRows cleanedRows)) \<noteq> 0 \<longrightarrow>
        rounds_to_tenth (quality (calculateStats rawRows cleanedRows))
          (real_of_int (total (cleaned (calculateStats rawRows cleanedRows)))
             / real_of_int (total (raw (calculateStats rawRows cleanedRows))) * 100))
   \<and> cleaned (calculateStats rawRows cleanedRows) =
     \<lparr>total = int (length cleanedRows), missing = 0, nulls = 0,
      completeness = 100, validity = 100, consistency = 100\<rparr>
   \<and> calculateStats [[(''a'', Some ''1'')], [(''a'', None)]] [[(''a'', Some ''1'')]] =
     \<lparr>raw = \<lparr>total = 2, missing = 1, nulls = 1,
              completeness = 50, validity = 50, consistency = 50\<rparr>,
      cleaned = \<lparr>total = 1, missing = 0, nulls = 0,
                  completeness = 100, validity = 100, consistency = 100\<rparr>,
      quality = 50, removed = 1\<rparr>"
proof (intro conjI impI)
  show "calculateStats [[(''a'', Some ''1'')], [(''a'', None)]] [[(''a'', Some ''1'')]] =
     \<lparr>raw = \<lparr>total = 2, missing = 1, nulls = 1,
              completeness = 50, validity = 50, consistency = 50\<rparr>,
      cleaned = \<lparr>total = 1, missing = 0, nulls = 0,
                  completeness = 100, validity = 100, consistency = 100\<rparr>,
      quality = 50, removed = 1\<rparr>"
    by (simp add: calculateStats_def Object_values_def toFixed1_def)
next
  assume "total (raw (calculateStats rawRows cleanedRows)) \<noteq> 0"
  then have "quality (calculateStats rawRows cleanedRows) =
      toFixed1 (real_of_int (total (cleaned (calculateStats rawRows cleanedRows)))
             / real_of_int (total (raw (calculateStats rawRows cleanedRows))) * 100)"
    by (simp add: calc_raw_total calc_cleaned calc_quality)
  then show "rounds_to_tenth (quality (calculateStats rawRows cleanedRows))
          (real_of_int (total (cleaned (calculateStats rawRows cleanedRows)))
             / real_of_int (total (raw (calculateStats rawRows cleanedRows))) * 100)"
    by (simp only: toFixed1_rounds)
qed (simp_all add: calc_removed calc_raw_total calc_cleaned calc_quality)

theorem calculateStats_invariants_witness:
  "cleaned (calculateStats [] [[(''a'', None)], [(''a'', Some [])]]) =
     \<lparr>total = 2, missing = 0, nulls = 0, completeness = 100, validity = 100, consistency = 100\<rparr>
   \<and> quality (calculateStats [] [[(''a'', None)], [(''a'', Some [])]]) = 0
   \<and> removed (calculateStats [] [[(''a'', None)], [(''a'', Some [])]]) = - 2
   \<and> total (raw (calculateStats [[], [], []] [[]])) \<noteq> 0
   \<and> rounds_to_tenth (quality (calculateStats [[], [], []] [[]])) (100 / 3)"
proof -
  note a = calculateStats_invariants [of "[]" "[[(''a'', None)], [(''a'', Some [])]]"]
  note b = calculateStats_invariants [of "[[], [], []]" "[[]]"]
  from a have c: "cleaned (calculateStats [] [[(''a'', None)], [(''a'', Some [])]]) =
     \<lparr>total = 2, missing = 0, nulls = 0, completeness = 100, validity = 100, consistency = 100\<rparr>"
    by simp
  from a have t0: "total (raw (calculateStats [] [[(''a'', None)], [(''a'', Some [])]])) = 0"
    by simp
  with a have q: "quality (calculateStats [] [[(''a'', None)], [(''a'', Some [])]]) = 0"
    by blast
  from a have "removed (calculateStats [] [[(''a'', None)], [(''a'', Some [])]]) =
      total (raw (calculateStats [] [[(''a'', None)], [(''a'', Some [])]]))
      - total (cleaned (calculateStats [] [[(''a'', None)], [(''a'', Some [])]]))"
    by blast
  then have r: "removed (calculateStats [] [[(''a'', None)], [(''a'', Some [])]]) = - 2"
    unfolding t0 c by simp
  from b have t3: "total (raw (calculateStats [[], [], []] [[]])) = 3"
    by simp
  from b have c1: "cleaned (calculateStats [[], [], []] [[]]) =
     \<lparr>total = 1, missing = 0, nulls = 0, completeness = 100, validity = 100, consistency = 100\<rparr>"
    by simp
  from t3 have nz: "total (raw (calculateStats [[], [], []] [[]])) \<noteq> 0"
    by simp
  with b have "rounds_to_tenth (quality (calculateStats [[], [], []] [[]]))
      (real_of_int (total (cleaned (calculateStats [[], [], []] [[]])))
         / real_of_int (total (raw (calculateStats [[], [], []] [[]]))) * 100)"
    by blast
  then have "rounds_to_tenth (quality (calculateStats [[], [], []] [[]])) (100 / 3)"
    unfolding t3 c1 by simp
  with c q r nz show ?thesis by blast
qed

text \<open>
  C9. The raw side's \<open>consistency\<close> is the same number as \<open>quality\<close>: the first is
  computed from \<open>rawTotal - (rawTotal - cleanedTotal)\<close> over \<open>rawTotal\<close>, the second
  from \<open>cleanedTotal\<close> over \<open>rawTotal\<close>, and both are 0 without raw rows.
\<close>

theorem calculateStats_consistency_is_quality:
  "consistency (raw (calculateStats rawRows cleanedRows)) = quality (calculateStats rawRows cleanedRows)
   \<and> consistency (raw (calculateStats rawRows cleanedRows)) =
       (if rawRows = [] then 0
        else toFixed1 (of_int (int (length rawRows) - (int (length rawRows) - int (length cleanedRows)))
                         / of_int (int (length rawRows)) * 100))
   \<and> quality (calculateStats rawRows cleanedRows) =
       (if rawRows = [] then 0
        else toFixed1 (of_int (int (length cleanedRows)) / of_int (int (length rawRows)) * 100))"
  by (simp add: calculateStats_def Let_def)

theorem calculateStats_consistency_is_quality_witness:
  "consistency (raw (calculateStats [[], [], []] [[], []])) = 667 / 10 \<and>
   quality (calculateStats [[], [], []] [[], []]) = 667 / 10 \<and>
   consistency (raw (calculateStats [] [[], []])) = 0 \<and>
   quality (calculateStats [] [[], []]) = 0"
  using calculateStats_consistency_is_quality [of "[[], [], []]" "[[], []]"]
    calculateStats_consistency_is_quality [of "[]" "[[], []]"]
  by (simp add: toFixed1_def)

text \<open>
  C10, as stated, fails for 2001 raw rows and 2002 cleaned rows: the ratio is
  100.04998 and is rounded to 100.0, so the returned quality does not exceed 100.
\<close>

theorem calculateStats_quality_counterexample:
  "length (replicate 2001 ([] :: row)) < length (replicate 2002 ([] :: row)) \<and>
   replicate 2001 ([] :: row) \<noteq> [] \<and>
   removed (calculateStats (replicate 2001 []) (replicate 2002 [])) = - 1 \<and>
   quality (calculateStats (replicate 2001 []) (replicate 2002 [])) = 100 \<and>
   \<not> 100 < quality (calculateStats (replicate 2001 []) (replicate 2002 []))"
  by (simp add: calc_quality calc_removed toFixed1_def)

text \<open>
  C10, amended. Nothing is clamped: when the cleaned sequence is longer than the raw
  one, \<open>removed\<close> is negative; if the raw sequence is not empty, the ratio
  \<open>cleanedTotal / rawTotal * 100\<close> exceeds 100 and the returned quality, its
  rounding to one decimal digit, is at least 100: above 100 when the raw length is
  below 2000 times the surplus of cleaned rows, equal to 100 when it is above that.
\<close>

theorem calculateStats_no_clamping:
  "length rawRows < length cleanedRows \<Longrightarrow>
   removed (calculateStats rawRows cleanedRows) < 0 \<and>
   (rawRows \<noteq> [] \<longrightarrow>
      100 \<le> quality (calculateStats rawRows cleanedRows) \<and>
      100 < real (length cleanedRows) / real (length rawRows) * 100 \<and>
      (length rawRows < 2000 * (length cleanedRows - length rawRows) \<longrightarrow>
         100 < quality (calculateStats rawRows cleanedRows)) \<and>
      (2000 * (length cleanedRows - length rawRows) < length rawRows \<longrightarrow>
         quality (calculateStats rawRows cleanedRows) = 100))"
proof (intro conjI impI)
  assume lt: "length rawRows < length cleanedRows"
  then show "removed (calculateStats rawRows cleanedRows) < 0"
    by (simp add: calc_removed)
  assume ne: "rawRows \<noteq> []"
  define r where "r = real (length rawRows)"
  define c where "c = real (length cleanedRows)"
  define x where "x = c / r"
  have r: "0 < r" and rc: "r < c"
    using ne lt by (simp_all add: r_def c_def)
  have d: "real (length cleanedRows - length rawRows) = c - r"
    using lt by (simp add: r_def c_def)
  have x: "1 < x"
    using r rc by (simp add: x_def)
  then have "\<not> x * 100 < 0"
    by linarith
  then have "toFixed1 (x * 100) = real_of_int \<lfloor>x * 100 * 10 + 1 / 2\<rfloor> / 10"
    unfolding toFixed1_def by (rule if_not_P)
  then have q: "quality (calculateStats rawRows cleanedRows) = real_of_int \<lfloor>x * 100 * 10 + 1 / 2\<rfloor> / 10"
    using ne by (simp add: calc_quality r_def c_def x_def)
  from x have "100 < x * 100"
    by linarith
  then show "100 < real (length cleanedRows) / real (length rawRows) * 100"
    unfolding r_def c_def x_def .
  from x have "real_of_int 1000 \<le> x * 100 * 10 + 1 / 2"
    by linarith
  then have lo: "1000 \<le> \<lfloor>x * 100 * 10 + 1 / 2\<rfloor>"
    by (rule le_floor_iff [THEN iffD2])
  then show "100 \<le> quality (calculateStats rawRows cleanedRows)"
    unfolding q by linarith
  {
    assume "length rawRows < 2000 * (length cleanedRows - length rawRows)"
    then have "real (length rawRows) < real (2000 * (length cleanedRows - length rawRows))"
      by (rule of_nat_less_iff [THEN iffD2])
    then have "r < 2000 * (c - r)"
      by (simp add: d r_def [symmetric])
    then have "2001 * r < 2000 * c"
      by (simp add: algebra_simps)
    then have "2001 / 2000 < x"
      using r by (simp add: x_def field_simps)
    then have "real_of_int 1001 \<le> x * 100 * 10 + 1 / 2"
      by linarith
    then have "1001 \<le> \<lfloor>x * 100 * 10 + 1 / 2\<rfloor>"
      by (rule le_floor_iff [THEN iffD2])
    then show "100 < quality (calculateStats rawRows cleanedRows)"
      unfolding q by linarith
  }
  {
    assume "2000 * (length cleanedRows - length rawRows) < length rawRows"
    then have "real (2000 * (length cleanedRows - length rawRows)) < real (length rawRows)"
      by (rule of_nat_less_iff [THEN iffD2])
    then have "2000 * (c - r) < r"
      by (simp add: d r_def [symmetric])
    then have "2000 * c < 2001 * r"
      by (simp add: algebra_simps)
    then have "x < 2001 / 2000"
      using r by (simp add: x_def field_simps)
    then have "x * 100 * 10 + 1 / 2 < real_of_int 1001"
      by linarith
    then have "\<lfloor>x * 100 * 10 + 1 / 2\<rfloor> < 1001"
      by (rule floor_less_iff [THEN iffD2])
    with lo have "\<lfloor>x * 100 * 10 + 1 / 2\<rfloor> = 1000"
      by linarith
    then show "quality (calculateStats rawRows cleanedRows) = 100"
      unfolding q by simp
  }
qed

theorem calculateStats_no_clamping_witness:
  "length [[] :: row] < length [[], [] :: row] \<and>
   removed (calculateStats [[]] [[], []]) < 0 \<and>
   100 < quality (calculateStats [[]] [[], []]) \<and>
   quality (calculateStats (replicate 2001 []) (replicate 2002 [])) = 100"
  using calculateStats_no_clamping [of "[[]]" "[[], []]"]
    calculateStats_no_clamping [of "replicate 2001 []" "replicate 2002 []"]
  by simp


section \<open>Search against its description\<close>

lemma startsWith_prefix: "startsWith s t \<longleftrightarrow> prefix t s"
  by (induction s t rule: startsWith.induct) auto

lemma js_includes_sublist: "js_includes s t \<longleftrightarrow> sublist t s"
  by (induction s) (simp_all add: startsWith_prefix sublist_Cons_right)

lemma js_some_iff: "js_some p xs \<longleftrightarrow> (\<exists>x\<in>set xs. p x)"
  by (induction xs) simp_all

lemma js_filter_eq: "js_filter p xs kept = kept @ filter p xs"
  by (induction xs arbitrary: kept) simp_all

lemma toLowerCase_Nil_iff: "toLowerCase term = [] \<longleftrightarrow> term = []"
  by (simp add: toLowerCase_def)

text \<open>
  The description's vocabulary: a cell matches a term when it is not null and its
  lower-cased text contains the lower-cased term as a substring; the source rows of a
  view.
\<close>

definition cell_matches :: "string \<Rightarrow> cell \<Rightarrow> bool" where
  "cell_matches term v =
     (case v of None \<Rightarrow> False | Some str \<Rightarrow> sublist (toLowerCase term) (toLowerCase str))"

definition sourceRows :: "view \<Rightarrow> app_state \<Rightarrow> row list" where
  "sourceRows type s = (case type of Raw \<Rightarrow> rawData s | Cleaned \<Rightarrow> cleanedData s)"

text \<open>
  C2. For every view and every search term, the search leaves in the view's
  \<open>filteredData\<close> the whole source row sequence when the term is empty, and otherwise
  exactly the source rows with at least one matching cell, in source order (a null
  cell matches nothing); the result is a subsequence of the source rows in both cases,
  and \<open>currentPage\<close> is 1 afterwards.
\<close>

theorem search_input_filters:
  "(term = [] \<longrightarrow>
      filteredData (paginationState (search_input type term s) type) = sourceRows type s)
   \<and> (term \<noteq> [] \<longrightarrow>
      filteredData (paginationState (search_input type term s) type) =
        filter (\<lambda>row. \<exists>v\<in>set (Object_values row). cell_matches term v) (sourceRows type s))
   \<and> subseq (filteredData (paginationState (search_input type term s) type)) (sourceRows type s)
   \<and> currentPage (paginationState (search_input type term s) type) = 1"
proof -
  have src: "(if type = Raw then rawData s else cleanedData s) = sourceRows type s"
    by (cases type) (simp_all add: sourceRows_def)
  have m: "(\<lambda>item. js_some
              (\<lambda>value. case value of None \<Rightarrow> False
                        | Some str \<Rightarrow> js_includes (toLowerCase str) (toLowerCase term))
              (Object_values item))
           = (\<lambda>row. \<exists>v\<in>set (Object_values row). cell_matches term v)"
    by (auto simp: js_some_iff js_includes_sublist cell_matches_def fun_eq_iff split: option.splits)
  have f: "filteredData (paginationState (search_input type term s) type) =
             (if term = [] then sourceRows type s
              else filter (\<lambda>row. \<exists>v\<in>set (Object_values row). cell_matches term v) (sourceRows type s))"
    unfolding search_input_def filterData_def Let_def src m
    by (simp add: toLowerCase_Nil_iff js_filter_eq)
  have p: "currentPage (paginationState (search_input type term s) type) = 1"
    by (simp add: search_input_def filterData_def Let_def)
  from f have "subseq (filteredData (paginationState (search_input type term s) type)) (sourceRows type s)"
    by simp
  with f p show ?thesis by (cases "term = []") simp_all
qed

theorem search_input_filters_witness:
  "''aNN'' \<noteq> [] \<and>
   filteredData (paginationState (search_input Raw ''aNN'' sample_state) Raw) =
     [[(''id'', Some ''7''), (''name'', Some ''Ann Lee'')],
      [(''id'', Some ''9''), (''name'', Some ''joANNa'')]] \<and>
   filteredData (paginationState (search_input Raw [] sample_state) Raw) = rawData sample_state \<and>
   currentPage (paginationState (search_input Raw ''aNN'' sample_state) Raw) = 1"
proof -
  have c: "cell_matches ''aNN'' (Some ''Ann Lee'')" "cell_matches ''aNN'' (Some ''joANNa'')"
    "\<not> cell_matches ''aNN'' (Some ''7'')" "\<not> cell_matches ''aNN'' (Some ''8'')"
    "\<not> cell_matches ''aNN'' (Some ''9'')" "\<not> cell_matches ''aNN'' None"
    by (simp_all add: cell_matches_def js_includes_sublist [symmetric] toLowerCase_def toLowerCase_char_def)
  show ?thesis
    using search_input_filters [of "''aNN''" Raw sample_state]
      search_input_filters [of "[]" Raw sample_state]
    by (simp add: sourceRows_def sample_state_def Object_values_def c)
qed


section \<open>Page navigation against its description\<close>

text \<open>
  For a positive page size, \<open>maxPage\<close> is the least number of pages that hold all
  filtered rows.
\<close>

lemma maxPage_covers:
  assumes "0 < itemsPerPage st"
  shows "(maxPage st - 1) * itemsPerPage st < int (length (filteredData st))
         \<and> int (length (filteredData st)) \<le> maxPage st * itemsPerPage st"
proof -
  define n where "n = int (length (filteredData st))"
  define k where "k = itemsPerPage st"
  define x where "x = real_of_int n / real_of_int k"
  have k: "0 < real_of_int k"
    using assms by (simp add: k_def)
  have "real_of_int (\<lceil>x\<rceil> - 1) < x"
    by linarith
  then have "real_of_int (\<lceil>x\<rceil> - 1) * real_of_int k < real_of_int n"
    unfolding x_def using k by (simp only: pos_less_divide_eq)
  then have lo: "(\<lceil>x\<rceil> - 1) * k < n"
    by (simp only: of_int_mult [symmetric] of_int_less_iff)
  have "x \<le> real_of_int \<lceil>x\<rceil>"
    by linarith
  then have "real_of_int n \<le> real_of_int \<lceil>x\<rceil> * real_of_int k"
    unfolding x_def using k by (simp only: pos_divide_le_eq)
  then have hi: "n \<le> \<lceil>x\<rceil> * k"
    by (simp only: of_int_mult [symmetric] of_int_le_iff)
  have "maxPage st = \<lceil>x\<rceil>"
    by (simp add: maxPage_def x_def n_def k_def)
  with lo hi show ?thesis
    by (simp add: n_def k_def)
qed

text \<open>
  C3. For every view whose page size is positive: the forward button adds exactly 1
  to \<open>currentPage\<close> when \<open>currentPage < ceil(filteredData.length / itemsPerPage)\<close>
  and leaves the whole state as it is otherwise; the back button subtracts exactly 1
  when \<open>currentPage > 1\<close> and leaves the state as it is otherwise. With five filtered
  rows and two rows to a page the last page is 3, forward on page 3 does nothing and
  back on page 1 does nothing.
\<close>

theorem page_navigation:
  "paginationState s type = st \<Longrightarrow> 0 < itemsPerPage st \<Longrightarrow>
   (currentPage st < maxPage st \<longrightarrow>
      next_click type s =
        s\<lparr>paginationState := (paginationState s)(type := st\<lparr>currentPage := currentPage st + 1\<rparr>)\<rparr>)
   \<and> (\<not> currentPage st < maxPage st \<longrightarrow> next_click type s = s)
   \<and> (1 < currentPage st \<longrightarrow>
      prev_click type s =
        s\<lparr>paginationState := (paginationState s)(type := st\<lparr>currentPage := currentPage st - 1\<rparr>)\<rparr>)
   \<and> (\<not> 1 < currentPage st \<longrightarrow> prev_click type s = s)
   \<and> maxPage st = \<lceil>real (length (filteredData st)) / real_of_int (itemsPerPage st)\<rceil>
   \<and> (maxPage st - 1) * itemsPerPage st < int (length (filteredData st))
   \<and> int (length (filteredData st)) \<le> maxPage st * itemsPerPage st
   \<and> (length (filteredData st) = 5 \<and> itemsPerPage st = 2 \<longrightarrow>
        maxPage st = 3 \<and>
        (currentPage st = 3 \<longrightarrow> next_click type s = s) \<and>
        (currentPage st = 1 \<longrightarrow> prev_click type s = s))"
proof -
  assume st: "paginationState s type = st" and pos: "0 < itemsPerPage st"
  have five: "maxPage st = 3" if "length (filteredData st) = 5" "itemsPerPage st = 2"
    using that by (simp add: maxPage_def)
  from st have nx: "next_click type s =
      (if currentPage st < maxPage st
       then s\<lparr>paginationState := (paginationState s)(type := st\<lparr>currentPage := currentPage st + 1\<rparr>)\<rparr>
       else s)"
    by (simp add: next_click_def)
  from st have pv: "prev_click type s =
      (if 1 < currentPage st
       then s\<lparr>paginationState := (paginationState s)(type := st\<lparr>currentPage := currentPage st - 1\<rparr>)\<rparr>
       else s)"
    by (simp add: prev_click_def)
  from maxPage_covers [OF pos] five show ?thesis
    unfolding nx pv by (simp add: maxPage_def)
qed

theorem page_navigation_witness:
  "0 < itemsPerPage (paginationState (five_rows 3) Raw)
   \<and> maxPage (paginationState (five_rows 3) Raw) = 3
   \<and> next_click Raw (five_rows 3) = five_rows 3
   \<and> prev_click Raw (five_rows 1) = five_rows 1
   \<and> currentPage (paginationState (next_click Raw (five_rows 2)) Raw) = 3
   \<and> currentPage (paginationState (prev_click Raw (five_rows 2)) Raw) = 1"
  using page_navigation [of "five_rows 3" Raw "paginationState (five_rows 3) Raw"]
    page_navigation [of "five_rows 1" Raw "paginationState (five_rows 1) Raw"]
    page_navigation [of "five_rows 2" Raw "paginationState (five_rows 2) Raw"]
  by (simp add: five_rows_def initial_state_def)


section \<open>The page invariant\<close>

text \<open>
  The invariant of a view, the two views together, and the side conditions under which
  the model follows the script: page sizes are positive, and a page size change sets a
  positive size.
\<close>

definition page_inv :: "view_state \<Rightarrow> bool" where
  "page_inv st = (1 \<le> currentPage st \<and> currentPage st \<le> max 1 (maxPage st))"

definition page_inv_all :: "app_state \<Rightarrow> bool" where
  "page_inv_all s = (page_inv (paginationState s Raw) \<and> page_inv (paginationState s Cleaned))"

definition positive_sizes :: "app_state \<Rightarrow> bool" where
  "positive_sizes s =
     (0 < itemsPerPage (paginationState s Raw) \<and> 0 < itemsPerPage (paginationState s Cleaned))"

fun valid_event :: "event \<Rightarrow> bool" where
  "valid_event (ChangePageSize type n) = (0 < n)"
| "valid_event e = True"

lemma page_inv_first: "currentPage st = 1 \<Longrightarrow> page_inv st"
  by (simp add: page_inv_def)

lemma loadDataset_view:
  "paginationState (fst (loadDataset fetch_text datasetName s)) type = paginationState s type
   \<or> (currentPage (paginationState (fst (loadDataset fetch_text datasetName s)) type) = 1 \<and>
      itemsPerPage (paginationState (fst (loadDataset fetch_text datasetName s)) type) =
        itemsPerPage (paginationState s type))"
  by (cases type) (auto simp: loadDataset_def Let_def split: option.splits sum.splits)

lemma search_input_view:
  "paginationState (search_input type term s) other = paginationState s other
   \<or> (currentPage (paginationState (search_input type term s) other) = 1 \<and>
      itemsPerPage (paginationState (search_input type term s) other) =
        itemsPerPage (paginationState s other))"
  by (simp add: search_input_def filterData_def Let_def)

lemma limit_change_view:
  "paginationState (limit_change type n s) other =
     (if other = type then (paginationState s type)\<lparr>itemsPerPage := n, currentPage := 1\<rparr>
      else paginationState s other)"
  by (simp add: limit_change_def)

lemma next_click_view:
  "paginationState (next_click type s) other =
     (if other = type \<and> currentPage (paginationState s type) < maxPage (paginationState s type)
      then (paginationState s type)\<lparr>currentPage := currentPage (paginationState s type) + 1\<rparr>
      else paginationState s other)"
  by (simp add: next_click_def)

lemma prev_click_view:
  "paginationState (prev_click type s) other =
     (if other = type \<and> 1 < currentPage (paginationState s type)
      then (paginationState s type)\<lparr>currentPage := currentPage (paginationState s type) - 1\<rparr>
      else paginationState s other)"
  by (simp add: prev_click_def)

lemma maxPage_currentPage: "maxPage (st\<lparr>currentPage := p\<rparr>) = maxPage st"
  by (simp add: maxPage_def)

lemma page_inv_next:
  "page_inv st \<Longrightarrow> currentPage st < maxPage st \<Longrightarrow>
   page_inv (st\<lparr>currentPage := currentPage st + 1\<rparr>)"
  by (simp add: page_inv_def maxPage_currentPage)

lemma page_inv_prev:
  "page_inv st \<Longrightarrow> 1 < currentPage st \<Longrightarrow>
   page_inv (st\<lparr>currentPage := currentPage st - 1\<rparr>)"
  by (simp add: page_inv_def maxPage_currentPage)

lemma fire_view:
  assumes inv: "page_inv (paginationState s type)"
    and pos: "0 < itemsPerPage (paginationState s type)"
    and ok: "valid_event e"
  shows "page_inv (paginationState (fire e s) type) \<and> 0 < itemsPerPage (paginationState (fire e s) type)"
proof (cases e)
  case (Load fetch_text datasetName)
  from loadDataset_view [of fetch_text datasetName s type] inv pos show ?thesis
    unfolding Load fire.simps by (elim disjE) (simp_all add: page_inv_first)
next
  case (Search v t)
  from search_input_view [of v t s type] inv pos show ?thesis
    unfolding Search fire.simps by (elim disjE) (simp_all add: page_inv_first)
next
  case (ChangePageSize v n)
  from inv pos ok show ?thesis
    unfolding ChangePageSize fire.simps by (simp add: limit_change_view page_inv_first)
next
  case (PageForward v)
  from inv pos show ?thesis
    unfolding PageForward fire.simps by (auto simp: next_click_view page_inv_next)
next
  case (PageBack v)
  from inv pos show ?thesis
    unfolding PageBack fire.simps by (auto simp: prev_click_view page_inv_prev)
qed

lemma fire_preserves:
  "positive_sizes s \<Longrightarrow> page_inv_all s \<Longrightarrow> valid_event e \<Longrightarrow>
   positive_sizes (fire e s) \<and> page_inv_all (fire e s)"
  using fire_view [of s Raw e] fire_view [of s Cleaned e]
  by (simp add: positive_sizes_def page_inv_all_def)

lemma initial_ok: "positive_sizes initial_state \<and> page_inv_all initial_state"
  by (simp add: positive_sizes_def page_inv_all_def page_inv_def initial_state_def)

lemma run_preserves:
  "positive_sizes s \<Longrightarrow> page_inv_all s \<Longrightarrow> list_all valid_event es \<Longrightarrow>
   positive_sizes (fold fire es s) \<and> page_inv_all (fold fire es s)"
proof (induction es arbitrary: s)
  case Nil
  then show ?case by simp
next
  case (Cons e es)
  from Cons.prems have "positive_sizes (fire e s) \<and> page_inv_all (fire e s)"
    by (simp add: fire_preserves)
  with Cons.IH [of "fire e s"] Cons.prems show ?case by simp
qed

text \<open>
  C4. In the initial state both views satisfy
  \<open>1 \<le> currentPage \<le> max(1, ceil(filteredData.length / itemsPerPage))\<close>, and every
  transition (a dataset load, whether it succeeds or fails, a search, a change to a
  positive page size, page forward, page back) keeps it for both views; so it holds
  after every sequence of such transitions from the initial state.
\<close>

theorem page_invariant:
  "page_inv_all initial_state \<and> positive_sizes initial_state
   \<and> (positive_sizes s \<and> page_inv_all s \<and> valid_event e \<longrightarrow>
        page_inv_all (fire e s) \<and> positive_sizes (fire e s))
   \<and> (list_all valid_event es \<longrightarrow> page_inv_all (fold fire es initial_state))"
  using initial_ok fire_preserves [of s e] run_preserves [of initial_state es]
  by blast

theorem page_invariant_witness:
  "list_all valid_event
     [Load raw_only_network ''field'', Search Raw ''a'', ChangePageSize Raw 100,
      PageForward Raw, PageBack Cleaned]
   \<and> page_inv_all (fold fire
     [Load raw_only_network ''field'', Search Raw ''a'', ChangePageSize Raw 100,
      PageForward Raw, PageBack Cleaned] initial_state)
   \<and> positive_sizes (five_rows 3) \<and> page_inv_all (five_rows 3) \<and> valid_event (PageForward Raw)
   \<and> page_inv_all (fire (PageForward Raw) (five_rows 3))"
proof -
  have "positive_sizes (five_rows 3) \<and> page_inv_all (five_rows 3)"
    by (simp add: positive_sizes_def page_inv_all_def page_inv_def maxPage_def five_rows_def
          initial_state_def)
  then show ?thesis
    using page_invariant [of "five_rows 3" "PageForward Raw"
        "[Load raw_only_network ''field'', Search Raw ''a'', ChangePageSize Raw 100,
          PageForward Raw, PageBack Cleaned]"]
    by simp
qed


section \<open>A failed load\<close>

lemma parseCSV_sample: "parseCSV ''a\<newline>1'' = Inr [[(''a'', Some ''1'')]]"
  by code_simp

text \<open>
  C1, as stated, fails when the raw file arrives and the fetch of the cleaned file
  fails: the load ends in its \<open>catch\<close> block with \<open>rawData\<close> already replaced by the
  rows of the new raw file.
\<close>

theorem loadDataset_not_atomic_counterexample:
  "snd (loadDataset raw_only_network ''field'' initial_state) = Failed \<and>
   rawData (fst (loadDataset raw_only_network ''field'' initial_state)) = [[(''a'', Some ''1'')]] \<and>
   rawData initial_state = [] \<and>
   rawData (fst (loadDataset raw_only_network ''field'' initial_state)) \<noteq> rawData initial_state"
  by (simp add: loadDataset_def DATASETS_def raw_only_network_def parseCSV_sample initial_state_def)

text \<open>
  C1, amended. When a load fails, \<open>cleanedData\<close>, \<open>dataStats\<close> and the pagination
  state of both views are what they were before the load, and \<open>currentDataset\<close> is
  the requested name. \<open>rawData\<close> is what it was before when the dataset is unknown or
  the fetch of the raw file failed; when the raw file arrived, the failure is that of
  the cleaned file's fetch and \<open>rawData\<close> holds the rows parsed from the new raw file.
\<close>

theorem loadDataset_failure_state:
  "snd (loadDataset fetch_text datasetName s) = Failed \<Longrightarrow>
   cleanedData (fst (loadDataset fetch_text datasetName s)) = cleanedData s
   \<and> dataStats (fst (loadDataset fetch_text datasetName s)) = dataStats s
   \<and> paginationState (fst (loadDataset fetch_text datasetName s)) = paginationState s
   \<and> currentDataset (fst (loadDataset fetch_text datasetName s)) = datasetName
   \<and> (case DATASETS datasetName of
        None \<Rightarrow> rawData (fst (loadDataset fetch_text datasetName s)) = rawData s
      | Some dataset \<Rightarrow>
          (case fetch_text (rawPath dataset) of
             Inl e \<Rightarrow> rawData (fst (loadDataset fetch_text datasetName s)) = rawData s
           | Inr rawText \<Rightarrow>
               parseCSV rawText = Inr (rawData (fst (loadDataset fetch_text datasetName s))) \<and>
               isl (fetch_text (cleanedPath dataset))))"
  by (auto simp: loadDataset_def Let_def parseCSV_eq split: option.splits sum.splits)

theorem loadDataset_failure_state_witness:
  "snd (loadDataset raw_only_network ''field'' initial_state) = Failed
   \<and> cleanedData (fst (loadDataset raw_only_network ''field'' initial_state)) = []
   \<and> dataStats (fst (loadDataset raw_only_network ''field'' initial_state)) = None
   \<and> parseCSV ''a\<newline>1'' = Inr (rawData (fst (loadDataset raw_only_network ''field'' initial_state)))
   \<and> snd (loadDataset raw_only_network ''nowhere'' initial_state) = Failed
   \<and> rawData (fst (loadDataset raw_only_network ''nowhere'' initial_state)) = []"
proof -
  have f: "snd (loadDataset raw_only_network ''field'' initial_state) = Failed"
    by (simp add: loadDataset_def DATASETS_def raw_only_network_def parseCSV_sample)
  have n: "snd (loadDataset raw_only_network ''nowhere'' initial_state) = Failed"
    by (simp add: loadDataset_def DATASETS_def)
  have d: "DATASETS ''field'' = Some \<lparr>name = ''Field Reports'', icon = ''fa-flag'',
         rawPath = ''data/raw/field.csv'', cleanedPath = ''data/cleaned/cleaned_field.csv'',
         description = ''Field failure and incident reports''\<rparr>"
    "DATASETS ''nowhere'' = None"
    by (simp_all add: DATASETS_def)
  have i: "cleanedData initial_state = []" "dataStats initial_state = None" "rawData initial_state = []"
    by (simp_all add: initial_state_def)
  from loadDataset_failure_state [OF f] loadDataset_failure_state [OF n] f n show ?thesis
    unfolding d i by (simp add: raw_only_network_def)
qed

end
